theory Spec2Isabelle
  imports Main
begin

section \<open>The header file\<close>

text \<open>
  The repository fragment is one file,
  \<^verbatim>\<open>tepismat/backends/openslide/include/matlab-openslide-wrapper.h\<close>. It is a piece of
  C preprocessor text, so the embedding keeps the text itself, byte for byte (274 bytes:
  seven newline characters, the last line \<^verbatim>\<open>#endif\<close> is not terminated by one; the third
  line is a single space and the include line ends in two spaces), and gives it its
  meaning by a model of the preprocessor: the text is split into lines, every line is
  read as a directive, and the directives are run on a preprocessor state.
\<close>

definition nl :: char where
  "nl = CHR 0x0A"

definition wrapper_path :: string where
  "wrapper_path = ''tepismat/backends/openslide/include/matlab-openslide-wrapper.h''"

definition wrapper_h :: string where
  "wrapper_h =
     ''// Openslide header wrapper as proposed by Benjamin Gilbert:'' @ [nl] @
     ''// https://github.com/openslide/openslide/issues/116#issuecomment-65187001'' @ [nl] @
     '' '' @ [nl] @
     ''#ifndef MATLAB_OPENSLIDE_WRAPPER_H'' @ [nl] @
     ''#define MATLAB_OPENSLIDE_WRAPPER_H'' @ [nl] @
     ''#define OPENSLIDE_SIMPLIFY_HEADERS'' @ [nl] @
     ''#include <openslide.h>  '' @ [nl] @
     ''#endif''"

text \<open>The files of the repository fragment, each with its path and its content.\<close>

definition repository :: "(string \<times> string) list" where
  "repository = [(wrapper_path, wrapper_h)]"

text \<open>The three names the header mentions.\<close>

definition guard_macro :: string where
  "guard_macro = ''MATLAB_OPENSLIDE_WRAPPER_H''"

definition simplify_macro :: string where
  "simplify_macro = ''OPENSLIDE_SIMPLIFY_HEADERS''"

definition openslide_h :: string where
  "openslide_h = ''openslide.h''"


section \<open>Lines and directives\<close>

text \<open>
  Translation phases 1 to 3, as far as this header needs them: the text is cut at newline
  characters (a last line without a newline is a line all the same, as C++11 [lex.phases]
  has it), a \<^verbatim>\<open>//\<close> comment runs to the end of its line, and white space around what is
  left of the line does not matter. Block comments, line splicing and trigraphs do not
  occur in the header and are not modelled.
\<close>

primrec lines_from :: "string \<Rightarrow> string \<Rightarrow> string list" where
  "lines_from cur [] = (if cur = [] then [] else [rev cur])"
| "lines_from cur (c # cs) =
     (if c = nl then rev cur # lines_from [] cs else lines_from (c # cur) cs)"

definition split_lines :: "string \<Rightarrow> string list" where
  "split_lines txt = lines_from [] txt"

definition is_ws :: "char \<Rightarrow> bool" where
  "is_ws c = (c = CHR '' '' \<or> c = CHR 0x09)"

definition trim_left :: "string \<Rightarrow> string" where
  "trim_left cs = dropWhile is_ws cs"

definition trim :: "string \<Rightarrow> string" where
  "trim cs = rev (trim_left (rev (trim_left cs)))"

fun strip_comment :: "string \<Rightarrow> string" where
  "strip_comment (a # b # cs) =
     (if a = CHR ''/'' \<and> b = CHR ''/'' then [] else a # strip_comment (b # cs))"
| "strip_comment cs = cs"

text \<open>
  The directives of the model. \<open>Define\<close> is an object-like macro definition with its
  replacement text (empty for a bare \<^verbatim>\<open>#define NAME\<close>); a line that does not start with
  \<^verbatim>\<open>#\<close> is \<open>Text\<close>, the only kind of line whose tokens survive preprocessing; a
  directive the model does not interpret (\<^verbatim>\<open>#if\<close>, \<^verbatim>\<open>#pragma\<close>, a function-like
  \<^verbatim>\<open>#define\<close>, ...) is kept as \<open>Unsupported\<close> with its text.
\<close>

datatype inc_kind = Angle | Quote

datatype directive =
    Blank
  | Ifdef string
  | Ifndef string
  | Else
  | Endif
  | Define string string
  | Undef string
  | Include inc_kind string
  | Error string
  | Text string
  | Unsupported string

definition is_name_end :: "char \<Rightarrow> bool" where
  "is_name_end c = (is_ws c \<or> c = CHR ''<'' \<or> c = CHR 0x22 \<or> c = CHR ''('')"

definition first_word :: "string \<Rightarrow> string" where
  "first_word cs = takeWhile (\<lambda>c. \<not> is_name_end c) cs"

definition after_word :: "string \<Rightarrow> string" where
  "after_word cs = dropWhile (\<lambda>c. \<not> is_name_end c) cs"

definition parse_include :: "string \<Rightarrow> string \<Rightarrow> directive" where
  "parse_include whole arg =
     (case arg of
        [] \<Rightarrow> Unsupported whole
      | c # cs \<Rightarrow>
          if c = CHR ''<'' \<and> cs \<noteq> [] \<and> last cs = CHR ''>'' then Include Angle (butlast cs)
          else if c = CHR 0x22 \<and> cs \<noteq> [] \<and> last cs = CHR 0x22 then Include Quote (butlast cs)
          else Unsupported whole)"

definition parse_define :: "string \<Rightarrow> string \<Rightarrow> directive" where
  "parse_define whole arg =
     (let name = first_word arg; rest = after_word arg in
      if name = [] then Unsupported whole
      else if rest \<noteq> [] \<and> hd rest = CHR ''('' then Unsupported whole
      else Define name (trim_left rest))"

definition parse_directive :: "string \<Rightarrow> string \<Rightarrow> directive" where
  "parse_directive whole body =
     (let name = first_word body; arg = trim_left (after_word body) in
      if name = [] \<and> arg = [] then Blank
      else if name = ''ifdef'' then Ifdef (first_word arg)
      else if name = ''ifndef'' then Ifndef (first_word arg)
      else if name = ''else'' then Else
      else if name = ''endif'' then Endif
      else if name = ''define'' then parse_define whole arg
      else if name = ''undef'' then Undef (first_word arg)
      else if name = ''include'' then parse_include whole arg
      else if name = ''error'' then Error arg
      else Unsupported whole)"

definition parse_line :: "string \<Rightarrow> directive" where
  "parse_line l =
     (let t = trim (strip_comment l) in
      case t of
        [] \<Rightarrow> Blank
      | c # r \<Rightarrow> if c = CHR ''#'' then parse_directive t (trim_left r) else Text t)"

definition parse_file :: "string \<Rightarrow> directive list" where
  "parse_file txt = map parse_line (split_lines txt)"


section \<open>The preprocessor state\<close>

text \<open>
  A macro environment binds a macro name to its replacement text. The state of a
  translation unit under preprocessing is the macro environment, the text lines emitted
  so far (what the compiler proper will see), the diagnostics reported so far and the
  headers textually included so far.

  Defining a macro again with the same replacement text is allowed and changes nothing.
  An incompatible redefinition is reported as a warning and the new definition takes
  effect (what GCC, Clang and MSVC do by default); every other diagnostic is an error.
  After an error preprocessing goes on; the translation unit has failed if an error has
  been reported.
\<close>

datatype diag =
    Redefined string
  | Missing_header string
  | Stray_else
  | Stray_endif
  | Unterminated_conditional
  | User_error string
  | Unsupported_directive string

fun is_error :: "diag \<Rightarrow> bool" where
  "is_error (Redefined n) = False"
| "is_error d = True"

type_synonym macro_env = "string \<rightharpoonup> string"

record pstate =
  macros :: macro_env
  emitted :: "string list"
  diags :: "diag list"
  included :: "string list"

definition failed :: "pstate \<Rightarrow> bool" where
  "failed s = list_ex is_error (diags s)"

text \<open>
  \<^verbatim>\<open>openslide.h\<close> belongs to the external library, not to this repository, so the headers
  found on the include path are a parameter: a header is given by what processing it
  does, as a function of the macro environment at the point of inclusion. It yields the
  new macro environment, the lines it emits, the diagnostics it causes and the further
  headers it includes. A header that is not found is \<open>None\<close>.
\<close>

record hdr_result =
  hr_macros :: macro_env
  hr_emitted :: "string list"
  hr_diags :: "diag list"
  hr_included :: "string list"

type_synonym header_effect = "macro_env \<Rightarrow> hdr_result"

type_synonym include_path = "inc_kind \<Rightarrow> string \<Rightarrow> header_effect option"


section \<open>Running directives\<close>

text \<open>
  A file is processed with a stack of the conditional groups that are open: for each
  group whether its lines are taken, and whether its \<^verbatim>\<open>#else\<close> has been seen. A
  directive takes effect only if every open group is taken.
\<close>

type_synonym cond = "bool \<times> bool"

type_synonym config = "cond list \<times> pstate"

definition active :: "cond list \<Rightarrow> bool" where
  "active st = list_all fst st"

definition report :: "diag \<Rightarrow> pstate \<Rightarrow> pstate" where
  "report d s = s\<lparr>diags := diags s @ [d]\<rparr>"

definition define_macro :: "string \<Rightarrow> string \<Rightarrow> pstate \<Rightarrow> pstate" where
  "define_macro n b s =
     (case macros s n of
        None \<Rightarrow> s\<lparr>macros := (macros s)(n \<mapsto> b)\<rparr>
      | Some b' \<Rightarrow>
          if b' = b then s
          else report (Redefined n) (s\<lparr>macros := (macros s)(n \<mapsto> b)\<rparr>))"

definition undef_macro :: "string \<Rightarrow> pstate \<Rightarrow> pstate" where
  "undef_macro n s = s\<lparr>macros := (macros s)(n := None)\<rparr>"

definition absorb :: "string \<Rightarrow> hdr_result \<Rightarrow> pstate \<Rightarrow> pstate" where
  "absorb h r s =
     s\<lparr>macros := hr_macros r,
       emitted := emitted s @ hr_emitted r,
       diags := diags s @ hr_diags r,
       included := included s @ h # hr_included r\<rparr>"

definition include_header :: "include_path \<Rightarrow> inc_kind \<Rightarrow> string \<Rightarrow> pstate \<Rightarrow> pstate" where
  "include_header ip k h s =
     (case ip k h of
        None \<Rightarrow> report (Missing_header h) s
      | Some eff \<Rightarrow> absorb h (eff (macros s)) s)"

fun step :: "include_path \<Rightarrow> directive \<Rightarrow> config \<Rightarrow> config" where
  "step ip Blank (st, s) = (st, s)"
| "step ip (Ifdef n) (st, s) = ((macros s n \<noteq> None, False) # st, s)"
| "step ip (Ifndef n) (st, s) = ((macros s n = None, False) # st, s)"
| "step ip Else (st, s) =
     (case st of
        [] \<Rightarrow> ([], report Stray_else s)
      | (t, e) # r \<Rightarrow> if e then (st, report Stray_else s) else ((\<not> t, True) # r, s))"
| "step ip Endif (st, s) =
     (case st of
        [] \<Rightarrow> ([], report Stray_endif s)
      | c # r \<Rightarrow> (r, s))"
| "step ip (Define n b) (st, s) = (st, if active st then define_macro n b s else s)"
| "step ip (Undef n) (st, s) = (st, if active st then undef_macro n s else s)"
| "step ip (Include k h) (st, s) = (st, if active st then include_header ip k h s else s)"
| "step ip (Error m) (st, s) = (st, if active st then report (User_error m) s else s)"
| "step ip (Text t) (st, s) = (st, if active st then s\<lparr>emitted := emitted s @ [t]\<rparr> else s)"
| "step ip (Unsupported d) (st, s) =
     (st, if active st then report (Unsupported_directive d) s else s)"

fun run :: "include_path \<Rightarrow> directive list \<Rightarrow> config \<Rightarrow> config" where
  "run ip [] c = c"
| "run ip (d # ds) c = run ip ds (step ip d c)"

text \<open>
  Including a file: its lines are run with no conditional group open, and a group still
  open at its end is an error.
\<close>

definition include_file :: "include_path \<Rightarrow> string \<Rightarrow> pstate \<Rightarrow> pstate" where
  "include_file ip txt s =
     (case run ip (parse_file txt) ([], s) of
        (st, s') \<Rightarrow> if st = [] then s' else report Unterminated_conditional s')"

definition include_wrapper :: "include_path \<Rightarrow> pstate \<Rightarrow> pstate" where
  "include_wrapper ip s = include_file ip wrapper_h s"

text \<open>
  The preprocessing trace of a directive list: every directive with the configuration it
  is met in. The executed directives are those met while every open group is taken, that
  is, outside skipped groups.
\<close>

fun trace :: "include_path \<Rightarrow> directive list \<Rightarrow> config \<Rightarrow> (directive \<times> config) list" where
  "trace ip [] c = []"
| "trace ip (d # ds) c = (d, c) # trace ip ds (step ip d c)"

definition executed :: "(directive \<times> config) list \<Rightarrow> (directive \<times> config) list" where
  "executed tr = filter (\<lambda>(d, st, s). active st) tr"

definition wrapper_trace :: "include_path \<Rightarrow> pstate \<Rightarrow> (directive \<times> config) list" where
  "wrapper_trace ip s = executed (trace ip (parse_file wrapper_h) ([], s))"

fun defines_macro :: "string \<Rightarrow> directive \<Rightarrow> bool" where
  "defines_macro n (Define m b) = (m = n)"
| "defines_macro n d = False"

fun includes_header :: "string \<Rightarrow> directive \<Rightarrow> bool" where
  "includes_header h (Include k h') = (h' = h)"
| "includes_header h d = False"

fun is_text :: "directive \<Rightarrow> bool" where
  "is_text (Text t) = True"
| "is_text d = False"

fun is_undef :: "directive \<Rightarrow> bool" where
  "is_undef (Undef n) = True"
| "is_undef d = False"

fun is_user_error :: "directive \<Rightarrow> bool" where
  "is_user_error (Error m) = True"
| "is_user_error d = False"

text \<open>
  The directives that act on the state, as opposed to blank lines and the directives that
  only open and close conditional groups.
\<close>

fun is_action :: "directive \<Rightarrow> bool" where
  "is_action Blank = False"
| "is_action (Ifdef n) = False"
| "is_action (Ifndef n) = False"
| "is_action Else = False"
| "is_action Endif = False"
| "is_action d = True"


section \<open>What the claims speak about\<close>

text \<open>
  The macro environment the header's own directives leave behind, which is the one
  \<^verbatim>\<open>openslide.h\<close> is processed in: the environment at the point of inclusion with the two
  macros bound to the empty replacement text.
\<close>

definition own_env :: "pstate \<Rightarrow> macro_env" where
  "own_env s = (macros s)(guard_macro \<mapsto> [], simplify_macro \<mapsto> [])"

text \<open>
  The one assumption made about the library's header where a claim needs it: the header
  found as \<^verbatim>\<open><openslide.h>\<close> does not remove the macro \<open>n\<close>.
\<close>

definition header_keeps :: "include_path \<Rightarrow> string \<Rightarrow> bool" where
  "header_keeps ip n =
     (\<forall>eff env. ip Angle openslide_h = Some eff \<longrightarrow> env n \<noteq> None \<longrightarrow>
        hr_macros (eff env) n \<noteq> None)"

text \<open>
  Following the spec's words, not the code: "including the library header directly in its
  simplified-headers mode" is a translation unit that defines the configuration macro and
  then includes the library's header.
\<close>

definition simplified_direct :: string where
  "simplified_direct =
     ''#define OPENSLIDE_SIMPLIFY_HEADERS'' @ [nl] @
     ''#include <openslide.h>'' @ [nl]"

definition simplified_include :: "include_path \<Rightarrow> pstate \<Rightarrow> pstate" where
  "simplified_include ip s = include_file ip simplified_direct s"

text \<open>
  The header with its own content replaced by nothing: of its lines only the delegated
  include is kept.
\<close>

definition bare_include_h :: string where
  "bare_include_h =
     concat (map (\<lambda>l. l @ [nl])
       (filter (\<lambda>l. includes_header openslide_h (parse_line l)) (split_lines wrapper_h)))"

text \<open>
  Concrete inputs. A library header of the shape the spec describes: it has an include
  guard of its own and declares less when the configuration macro is defined. An include
  path that finds it and one that finds no header. A state with nothing defined, a state
  in which the wrapper's guard macro is already defined and one in which the
  configuration macro is already defined. A piece of a translation unit that tests the
  configuration macro.
\<close>

definition sample_openslide :: header_effect where
  "sample_openslide env =
     (if env ''OPENSLIDE_OPENSLIDE_H'' \<noteq> None
      then \<lparr>hr_macros = env, hr_emitted = [], hr_diags = [], hr_included = []\<rparr>
      else \<lparr>hr_macros = env(''OPENSLIDE_OPENSLIDE_H'' \<mapsto> []),
            hr_emitted =
              (if env ''OPENSLIDE_SIMPLIFY_HEADERS'' \<noteq> None
               then [''openslide_t *openslide_open(const char *filename);'']
               else [''openslide_t *openslide_open(const char *filename);'',
                     ''int _openslide_give_prefetch_hint_UNIMPLEMENTED(void);'']),
            hr_diags = [],
            hr_included = [''stdint.h'']\<rparr>)"

definition sample_path :: include_path where
  "sample_path k h = (if h = ''openslide.h'' then Some sample_openslide else None)"

definition no_headers :: include_path where
  "no_headers k h = None"

definition empty_state :: pstate where
  "empty_state = \<lparr>macros = Map.empty, emitted = [], diags = [], included = []\<rparr>"

definition guarded_state :: pstate where
  "guarded_state =
     \<lparr>macros = [''MATLAB_OPENSLIDE_WRAPPER_H'' \<mapsto> []], emitted = [], diags = [], included = []\<rparr>"

definition simplified_state :: pstate where
  "simplified_state =
     \<lparr>macros = [''OPENSLIDE_SIMPLIFY_HEADERS'' \<mapsto> []], emitted = [], diags = [], included = []\<rparr>"

definition sample_tail :: string where
  "sample_tail =
     ''#ifdef OPENSLIDE_SIMPLIFY_HEADERS'' @ [nl] @
     ''int main(void) { return 0; }'' @ [nl] @
     ''#else'' @ [nl] @
     ''int main(void) { return 1; }'' @ [nl] @
     ''#endif'' @ [nl]"


section \<open>What the header parses to and what running it does\<close>

lemma wrapper_h_length: "length wrapper_h = 274"
  by code_simp

lemma names_differ: "guard_macro \<noteq> simplify_macro"
  by (simp add: guard_macro_def simplify_macro_def)

lemma parse_wrapper:
  "parse_file wrapper_h =
     [Blank, Blank, Blank, Ifndef guard_macro, Define guard_macro [],
      Define simplify_macro [], Include Angle openslide_h, Endif]"
  by code_simp

lemma include_wrapper_guarded:
  "macros s guard_macro \<noteq> None \<Longrightarrow> include_wrapper ip s = s"
  by (auto simp add: include_wrapper_def include_file_def parse_wrapper active_def)

lemma include_wrapper_fresh:
  "macros s guard_macro = None \<Longrightarrow>
   include_wrapper ip s =
     include_header ip Angle openslide_h
       (define_macro simplify_macro [] (define_macro guard_macro [] s))"
  by (simp add: include_wrapper_def include_file_def parse_wrapper active_def)

lemma macros_define: "macros (define_macro n b s) = (macros s)(n \<mapsto> b)"
  by (auto simp add: define_macro_def report_def split: option.splits)

lemma emitted_define: "emitted (define_macro n b s) = emitted s"
  by (auto simp add: define_macro_def report_def split: option.splits)

lemma included_define: "included (define_macro n b s) = included s"
  by (auto simp add: define_macro_def report_def split: option.splits)

lemma diags_define:
  "diags (define_macro n b s) =
     diags s @ (if macros s n = None \<or> macros s n = Some b then [] else [Redefined n])"
  by (auto simp add: define_macro_def report_def split: option.splits)

lemma macros_own:
  "macros (define_macro simplify_macro [] (define_macro guard_macro [] s)) = own_env s"
  by (simp add: macros_define own_env_def)

lemma guard_after_wrapper:
  assumes "header_keeps ip guard_macro"
  shows "macros (include_wrapper ip s) guard_macro \<noteq> None"
proof (cases "macros s guard_macro")
  case None
  have own: "own_env s guard_macro \<noteq> None"
    using names_differ by (simp add: own_env_def)
  show ?thesis
  proof (cases "ip Angle openslide_h")
    case ipNone: None
    then show ?thesis
      using None own by (simp add: include_wrapper_fresh include_header_def report_def macros_own)
  next
    case (Some eff)
    then have "hr_macros (eff (own_env s)) guard_macro \<noteq> None"
      using assms own unfolding header_keeps_def by blast
    then show ?thesis
      using None Some by (simp add: include_wrapper_fresh include_header_def absorb_def macros_own)
  qed
next
  case (Some b)
  then show ?thesis by (simp add: include_wrapper_guarded)
qed

lemma trace_guarded:
  "macros s guard_macro \<noteq> None \<Longrightarrow>
   wrapper_trace ip s =
     [(Blank, [], s), (Blank, [], s), (Blank, [], s), (Ifndef guard_macro, [], s)]"
  by (auto simp add: wrapper_trace_def executed_def parse_wrapper active_def)

lemma trace_fresh:
  "macros s guard_macro = None \<Longrightarrow>
   wrapper_trace ip s =
     [(Blank, [], s), (Blank, [], s), (Blank, [], s), (Ifndef guard_macro, [], s),
      (Define guard_macro [], [(True, False)], s),
      (Define simplify_macro [], [(True, False)], define_macro guard_macro [] s),
      (Include Angle openslide_h, [(True, False)],
         define_macro simplify_macro [] (define_macro guard_macro [] s)),
      (Endif, [(True, False)],
         include_header ip Angle openslide_h
           (define_macro simplify_macro [] (define_macro guard_macro [] s)))]"
  by (simp add: wrapper_trace_def executed_def parse_wrapper active_def)

lemma sample_keeps: "header_keeps sample_path n"
  by (auto simp add: header_keeps_def sample_path_def sample_openslide_def openslide_h_def)

lemma empty_fresh: "macros empty_state guard_macro = None"
  by (simp add: empty_state_def)

lemma guarded_fact: "macros guarded_state guard_macro \<noteq> None"
  by (simp add: guarded_state_def guard_macro_def)

lemma simplified_fresh: "macros simplified_state guard_macro = None"
  by (simp add: simplified_state_def guard_macro_def)

lemma parse_simplified:
  "parse_file simplified_direct = [Define simplify_macro [], Include Angle openslide_h]"
  by code_simp

lemma simplified_include_eq:
  "simplified_include ip s = include_header ip Angle openslide_h (define_macro simplify_macro [] s)"
  by (simp add: simplified_include_def include_file_def parse_simplified active_def)

lemma parse_bare: "parse_file bare_include_h = [Include Angle openslide_h]"
  by code_simp

lemma bare_include_eq: "include_file ip bare_include_h s = include_header ip Angle openslide_h s"
  by (simp add: include_file_def parse_bare active_def)

lemma emitted_include:
  "emitted (include_header ip k h s) =
     emitted s @ (case ip k h of None \<Rightarrow> [] | Some eff \<Rightarrow> hr_emitted (eff (macros s)))"
  by (simp add: include_header_def report_def absorb_def split: option.splits)

lemma macros_include:
  "macros (include_header ip k h s) =
     (case ip k h of None \<Rightarrow> macros s | Some eff \<Rightarrow> hr_macros (eff (macros s)))"
  by (simp add: include_header_def report_def absorb_def split: option.splits)

lemma diags_include:
  "diags (include_header ip k h s) =
     diags s @ (case ip k h of None \<Rightarrow> [Missing_header h] | Some eff \<Rightarrow> hr_diags (eff (macros s)))"
  by (simp add: include_header_def report_def absorb_def split: option.splits)

lemma diags_wrapper:
  "diags (include_wrapper ip s) =
     diags s @
     (if macros s guard_macro \<noteq> None then []
      else (if macros s simplify_macro = None \<or> macros s simplify_macro = Some [] then []
            else [Redefined simplify_macro]) @
           (case ip Angle openslide_h of
              None \<Rightarrow> [Missing_header openslide_h]
            | Some eff \<Rightarrow> hr_diags (eff (own_env s))))"
proof (cases "macros s guard_macro")
  case None
  then show ?thesis
    using names_differ
    by (simp add: include_wrapper_fresh diags_include diags_define macros_define own_env_def
        split: option.splits)
next
  case (Some b)
  then show ?thesis by (simp add: include_wrapper_guarded)
qed

lemma empty_ok: "\<not> failed empty_state"
  by (simp add: failed_def empty_state_def)

lemma parse_tail:
  "parse_file sample_tail =
     [Ifdef simplify_macro, Text ''int main(void) { return 0; }'', Else,
      Text ''int main(void) { return 1; }'', Endif]"
  by code_simp

lemma tail_eq:
  "emitted (include_file ip sample_tail s) =
     emitted s @ (if macros s simplify_macro \<noteq> None
                  then [''int main(void) { return 0; }'']
                  else [''int main(void) { return 1; }''])"
  by (simp add: include_file_def parse_tail active_def)

lemma step_keeps:
  assumes "header_keeps ip n" and "macros s n \<noteq> None" and "d \<in> set (parse_file wrapper_h)"
  shows "macros (snd (step ip d (st, s))) n \<noteq> None"
proof -
  have inc: "macros (include_header ip Angle openslide_h s) n \<noteq> None"
    using assms(1,2) unfolding header_keeps_def
    by (auto simp add: macros_include split: option.splits)
  from assms(3) consider "d = Blank" | "d = Ifndef guard_macro" | "d = Define guard_macro []"
    | "d = Define simplify_macro []" | "d = Include Angle openslide_h" | "d = Endif"
    by (auto simp add: parse_wrapper)
  then show ?thesis
    using assms(2) inc by cases (auto simp add: macros_define report_def split: list.splits)
qed

lemma simplify_after_fresh:
  assumes "header_keeps ip simplify_macro" and "macros s guard_macro = None"
  shows "macros (include_wrapper ip s) simplify_macro \<noteq> None"
proof -
  have "own_env s simplify_macro \<noteq> None"
    by (simp add: own_env_def)
  then show ?thesis
    using assms unfolding header_keeps_def
    by (auto simp add: include_wrapper_fresh macros_include macros_own split: option.splits)
qed

lemma simplify_kept:
  assumes "header_keeps ip simplify_macro" and "macros s simplify_macro \<noteq> None"
  shows "macros (include_wrapper ip s) simplify_macro \<noteq> None"
proof (cases "macros s guard_macro")
  case None
  with assms(1) show ?thesis by (rule simplify_after_fresh)
next
  case (Some b)
  then show ?thesis using assms(2) by (simp add: include_wrapper_guarded)
qed


section \<open>The claims\<close>

text \<open>
  C1. Repeated inclusion of the wrapper in one translation unit is idempotent: after any
  number of further inclusions the whole preprocessor state (macro environment, emitted
  text, diagnostics, included headers) is the state after the first one, so the later
  inclusions report nothing, in particular no redefinition; and in a later inclusion no
  directive that acts on the state is executed: the guard makes it expand to nothing.
  The library's header is a parameter, assumed not to remove the wrapper's guard macro.
\<close>

theorem wrapper_inclusion_idempotent:
  assumes "header_keeps ip guard_macro"
  shows "(include_wrapper ip ^^ Suc n) s = include_wrapper ip s \<and>
         filter (\<lambda>e. is_action (fst e))
           (wrapper_trace ip ((include_wrapper ip ^^ Suc n) s)) = []"
proof -
  have eq: "(include_wrapper ip ^^ Suc n) s = include_wrapper ip s"
  proof (induction n)
    case 0
    show ?case by simp
  next
    case (Suc n)
    have "(include_wrapper ip ^^ Suc (Suc n)) s =
            include_wrapper ip ((include_wrapper ip ^^ Suc n) s)"
      by simp
    also have "\<dots> = include_wrapper ip (include_wrapper ip s)"
      using Suc.IH by simp
    also have "\<dots> = include_wrapper ip s"
      using guard_after_wrapper [OF assms] by (rule include_wrapper_guarded)
    finally show ?case .
  qed
  have "macros ((include_wrapper ip ^^ Suc n) s) guard_macro \<noteq> None"
    using eq guard_after_wrapper [OF assms, of s] by simp
  then have "filter (\<lambda>e. is_action (fst e))
               (wrapper_trace ip ((include_wrapper ip ^^ Suc n) s)) = []"
    by (simp add: trace_guarded)
  with eq show ?thesis by blast
qed

theorem wrapper_inclusion_idempotent_witness:
  "header_keeps sample_path guard_macro \<and>
   (include_wrapper sample_path ^^ Suc 2) empty_state = include_wrapper sample_path empty_state \<and>
   filter (\<lambda>e. is_action (fst e))
     (wrapper_trace sample_path ((include_wrapper sample_path ^^ Suc 2) empty_state)) = []"
  using wrapper_inclusion_idempotent [OF sample_keeps, of 2 empty_state] sample_keeps by blast

text \<open>
  C2. In the preprocessing trace of the wrapper, included where its guard macro is not
  defined, exactly one executed directive defines \<^verbatim>\<open>OPENSLIDE_SIMPLIFY_HEADERS\<close> and the
  wrapper does include \<^verbatim>\<open>openslide.h\<close>. In every trace of the wrapper, wherever it
  includes \<^verbatim>\<open>openslide.h\<close>, the definition was executed at an earlier position of the
  trace and the macro is defined in the state the include is met in.
\<close>

theorem simplify_defined_once_before_include:
  "(macros s guard_macro = None \<longrightarrow>
      length (filter (\<lambda>e. defines_macro simplify_macro (fst e)) (wrapper_trace ip s)) = 1 \<and>
      (\<exists>i < length (wrapper_trace ip s).
         includes_header openslide_h (fst (wrapper_trace ip s ! i)))) \<and>
   (\<forall>i < length (wrapper_trace ip s).
      includes_header openslide_h (fst (wrapper_trace ip s ! i)) \<longrightarrow>
        (\<exists>j < i. defines_macro simplify_macro (fst (wrapper_trace ip s ! j))) \<and>
        macros (snd (snd (wrapper_trace ip s ! i))) simplify_macro \<noteq> None)"
proof (cases "macros s guard_macro")
  case None
  note tr = trace_fresh [OF None, of ip]
  have one: "length (filter (\<lambda>e. defines_macro simplify_macro (fst e)) (wrapper_trace ip s)) = 1"
    using names_differ by (simp add: tr)
  have ex: "\<exists>i < length (wrapper_trace ip s).
              includes_header openslide_h (fst (wrapper_trace ip s ! i))"
    by (rule exI [of _ 6]) (simp add: tr)
  have all: "(\<exists>j < i. defines_macro simplify_macro (fst (wrapper_trace ip s ! j))) \<and>
              macros (snd (snd (wrapper_trace ip s ! i))) simplify_macro \<noteq> None"
    if "i < length (wrapper_trace ip s)"
      and "includes_header openslide_h (fst (wrapper_trace ip s ! i))" for i
  proof -
    have "i = 6"
      using that by (simp add: tr nth_Cons' split: if_splits)
    moreover have "defines_macro simplify_macro (fst (wrapper_trace ip s ! 5))"
      by (simp add: tr)
    moreover have "macros (snd (snd (wrapper_trace ip s ! 6))) simplify_macro \<noteq> None"
      by (simp add: tr macros_define)
    ultimately show ?thesis by (intro conjI exI [of _ 5]) simp_all
  qed
  from one ex all show ?thesis by blast
next
  case (Some b)
  then have tr: "wrapper_trace ip s =
      [(Blank, [], s), (Blank, [], s), (Blank, [], s), (Ifndef guard_macro, [], s)]"
    by (simp add: trace_guarded)
  have "\<not> includes_header openslide_h (fst (wrapper_trace ip s ! i))"
    if "i < length (wrapper_trace ip s)" for i
    using that by (simp add: tr nth_Cons' split: if_splits)
  with Some show ?thesis by simp
qed

theorem simplify_defined_once_before_include_witness:
  "macros empty_state guard_macro = None \<and>
   length (filter (\<lambda>e. defines_macro simplify_macro (fst e))
     (wrapper_trace sample_path empty_state)) = 1 \<and>
   includes_header openslide_h (fst (wrapper_trace sample_path empty_state ! 6)) \<and>
   defines_macro simplify_macro (fst (wrapper_trace sample_path empty_state ! 5)) \<and>
   macros (snd (snd (wrapper_trace sample_path empty_state ! 6))) simplify_macro \<noteq> None"
proof -
  note w = simplify_defined_once_before_include [of empty_state sample_path]
  have inc: "includes_header openslide_h (fst (wrapper_trace sample_path empty_state ! 6))"
    by (simp add: trace_fresh [OF empty_fresh])
  have len: "6 < length (wrapper_trace sample_path empty_state)"
    by (simp add: trace_fresh [OF empty_fresh])
  have def: "defines_macro simplify_macro (fst (wrapper_trace sample_path empty_state ! 5))"
    by (simp add: trace_fresh [OF empty_fresh])
  from w len inc
  have "macros (snd (snd (wrapper_trace sample_path empty_state ! 6))) simplify_macro \<noteq> None"
    by blast
  with w inc def empty_fresh show ?thesis by blast
qed

text \<open>
  C3. The header consists of the include guard, one definition of the configuration macro
  and the include of the library's header, and of nothing else: apart from blank and
  comment lines its directives are the guard's \<^verbatim>\<open>#ifndef\<close>, the two definitions, the include
  and the closing \<^verbatim>\<open>#endif\<close>; the directives that act on the state are exactly the three;
  no line of text survives; and including the header does these three things where the
  guard macro is not defined, and nothing otherwise.
\<close>

theorem wrapper_is_guard_define_include:
  "filter (\<lambda>d. d \<noteq> Blank) (parse_file wrapper_h) =
     [Ifndef guard_macro, Define guard_macro [], Define simplify_macro [],
      Include Angle openslide_h, Endif] \<and>
   filter is_action (parse_file wrapper_h) =
     [Define guard_macro [], Define simplify_macro [], Include Angle openslide_h] \<and>
   filter is_text (parse_file wrapper_h) = [] \<and>
   include_wrapper ip s =
     (if macros s guard_macro = None
      then include_header ip Angle openslide_h
             (define_macro simplify_macro [] (define_macro guard_macro [] s))
      else s)"
  by (simp add: parse_wrapper include_wrapper_fresh include_wrapper_guarded)

theorem wrapper_is_guard_define_include_witness:
  "macros (include_wrapper sample_path empty_state) =
     [guard_macro \<mapsto> [], simplify_macro \<mapsto> [], ''OPENSLIDE_OPENSLIDE_H'' \<mapsto> []] \<and>
   emitted (include_wrapper sample_path empty_state) =
     [''openslide_t *openslide_open(const char *filename);''] \<and>
   diags (include_wrapper sample_path empty_state) = [] \<and>
   included (include_wrapper sample_path empty_state) = [''openslide.h'', ''stdint.h'']"
proof -
  have "include_wrapper sample_path empty_state =
          include_header sample_path Angle openslide_h
            (define_macro simplify_macro [] (define_macro guard_macro [] empty_state))"
    using wrapper_is_guard_define_include [of sample_path empty_state] empty_fresh by simp
  then show ?thesis
    by (simp add: include_header_def sample_path_def openslide_h_def absorb_def macros_define
        emitted_define included_define diags_define sample_openslide_def empty_state_def
        guard_macro_def simplify_macro_def)
qed

text \<open>
  C4 (amended). Where the wrapper's guard macro is not yet defined, including the wrapper
  is the same as defining the guard macro and then including \<^verbatim>\<open>openslide.h\<close> directly in
  its simplified-headers mode: the whole states are equal, and the lines the wrapper
  emits are exactly those \<^verbatim>\<open>openslide.h\<close> emits with the configuration macro defined,
  nothing added and nothing removed. If the library's header emits the same with and
  without the guard macro, that is what the direct simplified inclusion emits from the
  same state.
\<close>

theorem wrapper_refines_simplified_include:
  assumes "macros s guard_macro = None"
  shows "include_wrapper ip s = simplified_include ip (define_macro guard_macro [] s) \<and>
         emitted (include_wrapper ip s) =
           emitted s @ (case ip Angle openslide_h of
                          None \<Rightarrow> []
                        | Some eff \<Rightarrow> hr_emitted (eff (own_env s))) \<and>
         ((\<forall>eff. ip Angle openslide_h = Some eff \<longrightarrow>
              hr_emitted (eff (own_env s)) = hr_emitted (eff ((macros s)(simplify_macro \<mapsto> [])))) \<longrightarrow>
          emitted (include_wrapper ip s) = emitted (simplified_include ip s))"
  using assms
  by (auto simp add: include_wrapper_fresh simplified_include_eq emitted_include emitted_define
      own_env_def macros_define split: option.splits)

theorem wrapper_refines_simplified_include_witness:
  "macros empty_state guard_macro = None \<and>
   include_wrapper sample_path empty_state =
     simplified_include sample_path (define_macro guard_macro [] empty_state) \<and>
   emitted (include_wrapper sample_path empty_state) =
     [''openslide_t *openslide_open(const char *filename);''] \<and>
   emitted (include_wrapper sample_path empty_state) =
     emitted (simplified_include sample_path empty_state)"
proof -
  note w = wrapper_refines_simplified_include [OF empty_fresh, of sample_path]
  have ins: "\<forall>eff. sample_path Angle openslide_h = Some eff \<longrightarrow>
      hr_emitted (eff (own_env empty_state)) =
      hr_emitted (eff ((macros empty_state)(simplify_macro \<mapsto> [])))"
    by (simp add: sample_path_def sample_openslide_def own_env_def empty_state_def
        guard_macro_def simplify_macro_def)
  have em: "emitted empty_state @
      (case sample_path Angle openslide_h of None \<Rightarrow> []
       | Some eff \<Rightarrow> hr_emitted (eff (own_env empty_state))) =
      [''openslide_t *openslide_open(const char *filename);'']"
    by (simp add: sample_path_def sample_openslide_def own_env_def empty_state_def
        guard_macro_def simplify_macro_def openslide_h_def)
  from w ins em empty_fresh show ?thesis by metis
qed

text \<open>
  C4 as stated, for every translation unit, fails where the guard macro is already
  defined: there the wrapper emits nothing, while the direct simplified inclusion emits
  the library's declarations.
\<close>

theorem wrapper_not_simplified_when_guarded:
  "emitted (include_wrapper sample_path guarded_state) \<noteq>
   emitted (simplified_include sample_path guarded_state)"
proof -
  have "include_wrapper sample_path guarded_state = guarded_state"
    using guarded_fact by (rule include_wrapper_guarded)
  then show ?thesis
    by (simp add: simplified_include_eq emitted_include emitted_define macros_define
        sample_path_def sample_openslide_def guarded_state_def openslide_h_def
        simplify_macro_def)
qed

text \<open>
  C5. If the translation unit has not failed before the wrapper, then it has not failed
  after it whenever \<^verbatim>\<open>openslide.h\<close> is found and causes no error where the wrapper includes
  it; if it has failed after the wrapper, then the guard macro was not defined and either
  \<^verbatim>\<open>openslide.h\<close> is missing or processing it caused an error. The diagnostics the
  inclusion adds are given exactly: nothing where the guard macro is defined; otherwise the
  preprocessor's warning for an incompatible redefinition, only if the configuration
  macro was already defined with a non-empty replacement text, followed by the missing-header
  error or by whatever the library's header reports. The wrapper has no \<^verbatim>\<open>#error\<close>
  directive of its own.
\<close>

theorem wrapper_failure_modes:
  assumes "\<not> failed s"
  shows "diags (include_wrapper ip s) =
           diags s @
           (if macros s guard_macro \<noteq> None then []
            else (if macros s simplify_macro = None \<or> macros s simplify_macro = Some [] then []
                  else [Redefined simplify_macro]) @
                 (case ip Angle openslide_h of
                    None \<Rightarrow> [Missing_header openslide_h]
                  | Some eff \<Rightarrow> hr_diags (eff (own_env s)))) \<and>
         (\<forall>eff. ip Angle openslide_h = Some eff \<longrightarrow>
                \<not> list_ex is_error (hr_diags (eff (own_env s))) \<longrightarrow>
                \<not> failed (include_wrapper ip s)) \<and>
         (failed (include_wrapper ip s) \<longrightarrow>
            macros s guard_macro = None \<and>
            (ip Angle openslide_h = None \<or>
             (\<exists>eff. ip Angle openslide_h = Some eff \<and>
                    list_ex is_error (hr_diags (eff (own_env s)))))) \<and>
         filter is_user_error (parse_file wrapper_h) = []"
proof -
  have ok: "\<not> list_ex is_error (diags s)"
    using assms by (simp add: failed_def)
  have a: "\<not> failed (include_wrapper ip s)"
    if "ip Angle openslide_h = Some eff" "\<not> list_ex is_error (hr_diags (eff (own_env s)))" for eff
    using that ok by (simp add: failed_def diags_wrapper)
  have b: "macros s guard_macro = None \<and>
            (ip Angle openslide_h = None \<or>
             (\<exists>eff. ip Angle openslide_h = Some eff \<and>
                    list_ex is_error (hr_diags (eff (own_env s)))))"
    if "failed (include_wrapper ip s)"
    using that ok by (auto simp add: failed_def diags_wrapper split: if_splits option.splits)
  have c: "filter is_user_error (parse_file wrapper_h) = []"
    by (simp add: parse_wrapper)
  from a b c diags_wrapper [of ip s] show ?thesis by blast
qed

theorem wrapper_failure_modes_witness:
  "\<not> failed empty_state \<and>
   \<not> failed (include_wrapper sample_path empty_state) \<and>
   diags (include_wrapper no_headers empty_state) = [Missing_header openslide_h]"
proof -
  note w = wrapper_failure_modes [OF empty_ok, of sample_path]
  note v = wrapper_failure_modes [OF empty_ok, of no_headers]
  have av: "sample_path Angle openslide_h = Some sample_openslide"
    by (simp add: sample_path_def openslide_h_def)
  have quiet: "\<not> list_ex is_error (hr_diags (sample_openslide (own_env empty_state)))"
    by (simp add: sample_openslide_def)
  from w av quiet have "\<not> failed (include_wrapper sample_path empty_state)"
    by blast
  moreover from v have "diags (include_wrapper no_headers empty_state) = [Missing_header openslide_h]"
    by (simp add: empty_state_def no_headers_def)
  ultimately show ?thesis using empty_ok by blast
qed

text \<open>
  C6 (amended). The wrapper is a compile-time-only artifact in this sense: none of its own
  lines is a line of text, so it has no function or variable definition and no other
  token that reaches the compiler; what is emitted after including it is what was emitted
  before, followed, where the guard macro was not defined, by what \<^verbatim>\<open>openslide.h\<close> emits
  with the two macros defined. Replacing the wrapper's own content by nothing, so that
  only the include is left, gives the same emitted text where the guard macro is not
  defined and the library's header emits the same with and without the two macros.
\<close>

theorem wrapper_emits_nothing_itself:
  "filter is_text (parse_file wrapper_h) = [] \<and>
   emitted (include_wrapper ip s) =
     emitted s @
     (if macros s guard_macro = None
      then (case ip Angle openslide_h of
              None \<Rightarrow> []
            | Some eff \<Rightarrow> hr_emitted (eff (own_env s)))
      else []) \<and>
   (macros s guard_macro = None \<longrightarrow>
    (\<forall>eff. ip Angle openslide_h = Some eff \<longrightarrow>
       hr_emitted (eff (own_env s)) = hr_emitted (eff (macros s))) \<longrightarrow>
    emitted (include_wrapper ip s) = emitted (include_file ip bare_include_h s))"
proof (cases "macros s guard_macro")
  case None
  then show ?thesis
    by (auto simp add: parse_wrapper include_wrapper_fresh bare_include_eq emitted_include
        emitted_define macros_define own_env_def split: option.splits)
next
  case (Some b)
  then show ?thesis
    by (simp add: parse_wrapper include_wrapper_guarded)
qed

theorem wrapper_emits_nothing_itself_witness:
  "emitted (include_wrapper sample_path simplified_state) =
     [''openslide_t *openslide_open(const char *filename);''] \<and>
   emitted (include_wrapper sample_path simplified_state) =
     emitted (include_file sample_path bare_include_h simplified_state)"
proof -
  note w = wrapper_emits_nothing_itself [of sample_path simplified_state]
  have ins: "\<forall>eff. sample_path Angle openslide_h = Some eff \<longrightarrow>
      hr_emitted (eff (own_env simplified_state)) = hr_emitted (eff (macros simplified_state))"
    by (simp add: sample_path_def sample_openslide_def own_env_def simplified_state_def
        guard_macro_def simplify_macro_def)
  from w simplified_fresh ins
  have "emitted (include_wrapper sample_path simplified_state) =
          emitted (include_file sample_path bare_include_h simplified_state)"
    by blast
  moreover from w
  have "emitted (include_wrapper sample_path simplified_state) =
          emitted simplified_state @
          (if macros simplified_state guard_macro = None
           then (case sample_path Angle openslide_h of
                   None \<Rightarrow> []
                 | Some eff \<Rightarrow> hr_emitted (eff (own_env simplified_state)))
           else [])"
    by blast
  then have "emitted (include_wrapper sample_path simplified_state) =
               [''openslide_t *openslide_open(const char *filename);'']"
    by (simp add: sample_path_def sample_openslide_def own_env_def simplified_state_def
        guard_macro_def simplify_macro_def openslide_h_def)
  ultimately show ?thesis by blast
qed

text \<open>
  C6 as stated fails: the two macros are the wrapper's own content, and the program that
  reaches the compiler depends on them. With the sample library header and a translation
  unit that goes on to test the configuration macro, the program after the wrapper
  returns 0 and declares the simplified interface; after the bare include it returns 1
  and declares more.
\<close>

theorem own_content_changes_program:
  "emitted (include_file sample_path sample_tail (include_wrapper sample_path empty_state)) =
     [''openslide_t *openslide_open(const char *filename);'',
      ''int main(void) { return 0; }''] \<and>
   emitted (include_file sample_path sample_tail
              (include_file sample_path bare_include_h empty_state)) =
     [''openslide_t *openslide_open(const char *filename);'',
      ''int _openslide_give_prefetch_hint_UNIMPLEMENTED(void);'',
      ''int main(void) { return 1; }'']"
proof -
  have fresh: "include_wrapper sample_path empty_state =
      include_header sample_path Angle openslide_h
        (define_macro simplify_macro [] (define_macro guard_macro [] empty_state))"
    using empty_fresh by (rule include_wrapper_fresh)
  have av: "sample_path Angle openslide_h = Some sample_openslide"
    by (simp add: sample_path_def openslide_h_def)
  show ?thesis
    unfolding tail_eq fresh bare_include_eq
    by (simp add: av emitted_include macros_include macros_define emitted_define
        sample_openslide_def empty_state_def simplify_macro_def guard_macro_def)
qed

text \<open>
  C7. The repository fragment consists of a single file, a header (its name ends in
  \<^verbatim>\<open>.h\<close>), and the text of that file has exactly 8 lines.
\<close>

theorem repository_single_header_8_lines:
  "length repository = 1 \<and>
   map (\<lambda>(p, txt). drop (length p - 2) p) repository = [''.h''] \<and>
   map (\<lambda>(p, txt). length (split_lines txt)) repository = [8]"
  by code_simp

text \<open>
  C8 (amended). Once the wrapper has been included at a point where its guard macro was
  not yet defined, \<^verbatim>\<open>OPENSLIDE_SIMPLIFY_HEADERS\<close> is defined, and it stays defined: the
  wrapper has no \<^verbatim>\<open>#undef\<close>; every preprocessing step of the wrapper, in any
  configuration, preserves that the macro is defined; so does any number of further
  inclusions of the wrapper; and a later direct inclusion of \<^verbatim>\<open>openslide.h\<close> processes
  the header in an environment that has the macro defined. The library's header is a
  parameter, assumed not to remove the macro.
\<close>

theorem simplify_macro_stays_defined:
  assumes "header_keeps ip simplify_macro"
  shows "filter is_undef (parse_file wrapper_h) = [] \<and>
         (\<forall>d \<in> set (parse_file wrapper_h). \<forall>st s'.
            macros s' simplify_macro \<noteq> None \<longrightarrow>
            macros (snd (step ip d (st, s'))) simplify_macro \<noteq> None) \<and>
         (macros s guard_macro = None \<longrightarrow>
            macros (include_wrapper ip s) simplify_macro \<noteq> None) \<and>
         (macros s simplify_macro \<noteq> None \<longrightarrow>
            macros ((include_wrapper ip ^^ n) s) simplify_macro \<noteq> None) \<and>
         (macros s guard_macro = None \<longrightarrow>
            (\<forall>eff. ip Angle openslide_h = Some eff \<longrightarrow>
               (\<exists>env. env simplify_macro \<noteq> None \<and>
                  include_header ip Angle openslide_h (include_wrapper ip s) =
                    absorb openslide_h (eff env) (include_wrapper ip s))))"
proof -
  have a: "filter is_undef (parse_file wrapper_h) = []"
    by (simp add: parse_wrapper)
  have b: "\<forall>d \<in> set (parse_file wrapper_h). \<forall>st s'.
            macros s' simplify_macro \<noteq> None \<longrightarrow>
            macros (snd (step ip d (st, s'))) simplify_macro \<noteq> None"
    using step_keeps [OF assms] by blast
  have c: "macros (include_wrapper ip s) simplify_macro \<noteq> None" if "macros s guard_macro = None"
    using assms that by (rule simplify_after_fresh)
  have d: "macros ((include_wrapper ip ^^ n) s) simplify_macro \<noteq> None"
    if "macros s simplify_macro \<noteq> None"
  proof (induction n)
    case 0
    show ?case using that by simp
  next
    case (Suc n)
    show ?case using simplify_kept [OF assms Suc.IH] by simp
  qed
  have e: "\<exists>env. env simplify_macro \<noteq> None \<and>
                  include_header ip Angle openslide_h (include_wrapper ip s) =
                    absorb openslide_h (eff env) (include_wrapper ip s)"
    if "macros s guard_macro = None" and "ip Angle openslide_h = Some eff" for eff
    using c [OF that(1)] that(2)
    by (intro exI [of _ "macros (include_wrapper ip s)"]) (simp add: include_header_def)
  from a b c d e show ?thesis by blast
qed

theorem simplify_macro_stays_defined_witness:
  "header_keeps sample_path simplify_macro \<and>
   macros (include_wrapper sample_path empty_state) simplify_macro \<noteq> None \<and>
   macros ((include_wrapper sample_path ^^ 3) simplified_state) simplify_macro \<noteq> None"
proof -
  note w = simplify_macro_stays_defined [OF sample_keeps, of empty_state 3]
  note v = simplify_macro_stays_defined [OF sample_keeps, of simplified_state 3]
  have "macros simplified_state simplify_macro \<noteq> None"
    by (simp add: simplified_state_def simplify_macro_def)
  with v have "macros ((include_wrapper sample_path ^^ 3) simplified_state) simplify_macro \<noteq> None"
    by blast
  with w empty_fresh sample_keeps show ?thesis by blast
qed

text \<open>
  C8 as stated, for every inclusion of the wrapper, fails where the guard macro is
  already defined: after the inclusion the configuration macro is not defined, and a
  later direct inclusion of \<^verbatim>\<open>openslide.h\<close> is not in simplified-headers mode.
\<close>

theorem simplify_undefined_after_guarded_inclusion:
  "macros (include_wrapper sample_path guarded_state) simplify_macro = None \<and>
   emitted (include_header sample_path Angle openslide_h
              (include_wrapper sample_path guarded_state)) =
     [''openslide_t *openslide_open(const char *filename);'',
      ''int _openslide_give_prefetch_hint_UNIMPLEMENTED(void);'']"
proof -
  have eq: "include_wrapper sample_path guarded_state = guarded_state"
    using guarded_fact by (rule include_wrapper_guarded)
  show ?thesis
    unfolding eq
    by (simp add: emitted_include sample_path_def sample_openslide_def guarded_state_def
        openslide_h_def simplify_macro_def)
qed

text \<open>
  C9. If the guard macro is already defined when the wrapper is included, the inclusion
  has no effect at all: the state is unchanged (so the configuration macro is not defined
  by it, no header is included and nothing is emitted), and no directive that acts on the
  state is executed.
\<close>

theorem guarded_inclusion_is_noop:
  assumes "macros s guard_macro \<noteq> None"
  shows "include_wrapper ip s = s \<and>
         filter (\<lambda>e. is_action (fst e)) (wrapper_trace ip s) = []"
  using assms by (simp add: include_wrapper_guarded trace_guarded)

theorem guarded_inclusion_is_noop_witness:
  "macros guarded_state guard_macro \<noteq> None \<and>
   include_wrapper sample_path guarded_state = guarded_state \<and>
   macros (include_wrapper sample_path guarded_state) simplify_macro = None \<and>
   emitted (include_wrapper sample_path guarded_state) = [] \<and>
   included (include_wrapper sample_path guarded_state) = []"
proof -
  have eq: "include_wrapper sample_path guarded_state = guarded_state"
    using guarded_inclusion_is_noop [OF guarded_fact, of sample_path] by blast
  have "macros guarded_state simplify_macro = None \<and> emitted guarded_state = [] \<and>
        included guarded_state = []"
    by (simp add: guarded_state_def simplify_macro_def)
  with eq guarded_fact show ?thesis by simp
qed

text \<open>
  C10. Frame property on the macro environment: where the guard macro is not defined,
  the macro environment after the wrapper is the one its own directives leave, changed
  further only by \<^verbatim>\<open>openslide.h\<close> (not at all if the header is missing). The environment
  its own directives leave binds the guard macro and the configuration macro, both
  object-like, to the empty replacement text and agrees with the initial environment on
  every other name.
\<close>

theorem wrapper_macro_frame:
  assumes "macros s guard_macro = None"
  shows "macros (include_wrapper ip s) =
           (case ip Angle openslide_h of
              None \<Rightarrow> own_env s
            | Some eff \<Rightarrow> hr_macros (eff (own_env s))) \<and>
         own_env s guard_macro = Some [] \<and>
         own_env s simplify_macro = Some [] \<and>
         (\<forall>n. n \<noteq> guard_macro \<longrightarrow> n \<noteq> simplify_macro \<longrightarrow> own_env s n = macros s n)"
proof -
  have "macros (include_wrapper ip s) =
           (case ip Angle openslide_h of
              None \<Rightarrow> own_env s
            | Some eff \<Rightarrow> hr_macros (eff (own_env s)))"
    using assms
    by (simp add: include_wrapper_fresh macros_include macros_own split: option.splits)
  moreover have "own_env s guard_macro = Some []"
    using names_differ by (simp add: own_env_def)
  moreover have "own_env s simplify_macro = Some []"
    by (simp add: own_env_def)
  moreover have "\<forall>n. n \<noteq> guard_macro \<longrightarrow> n \<noteq> simplify_macro \<longrightarrow> own_env s n = macros s n"
    by (simp add: own_env_def)
  ultimately show ?thesis by blast
qed

theorem wrapper_macro_frame_witness:
  "macros simplified_state guard_macro = None \<and>
   macros (include_wrapper no_headers simplified_state) =
     [simplify_macro \<mapsto> [], guard_macro \<mapsto> []] \<and>
   macros (include_wrapper sample_path empty_state) ''OPENSLIDE_OPENSLIDE_H'' = Some [] \<and>
   macros (include_wrapper sample_path empty_state) ''MATLAB'' = None"
proof -
  note w = wrapper_macro_frame [OF simplified_fresh, of no_headers]
  note v = wrapper_macro_frame [OF empty_fresh, of sample_path]
  from w have "macros (include_wrapper no_headers simplified_state) = own_env simplified_state"
    by (simp add: no_headers_def)
  then have a: "macros (include_wrapper no_headers simplified_state) =
     [simplify_macro \<mapsto> [], guard_macro \<mapsto> []]"
    by (auto simp add: own_env_def simplified_state_def simplify_macro_def guard_macro_def)
  from v have "macros (include_wrapper sample_path empty_state) =
      hr_macros (sample_openslide (own_env empty_state))"
    by (simp add: sample_path_def openslide_h_def)
  then have b: "macros (include_wrapper sample_path empty_state) ''OPENSLIDE_OPENSLIDE_H'' = Some [] \<and>
   macros (include_wrapper sample_path empty_state) ''MATLAB'' = None"
    by (simp add: sample_openslide_def own_env_def empty_state_def simplify_macro_def guard_macro_def)
  from a b simplified_fresh show ?thesis by blast
qed

end
